theory Spec2Isabelle
  imports Main "HOL-Library.AList" "HOL-Library.List_Lexorder" "HOL-Library.Multiset"
begin

section \<open>Python values\<close>

text \<open>
  The tracker of \<^verbatim>\<open>agentops/llm_tracker.py\<close> works on dynamically typed data: chunks and
  responses are read by key (\<^verbatim>\<open>chunk['model']\<close>) or by attribute (\<^verbatim>\<open>response.object\<close>),
  and every read may raise. Values are the JSON-like data a provider returns, objects
  with attributes (responses, modules, classes) and opaque callables. A dictionary
  and the attribute table of an object are association lists in insertion order.
  \<^verbatim>\<open>PSyncMethod api f\<close> and \<^verbatim>\<open>PAsyncMethod api f\<close> are the closures \<^verbatim>\<open>sync_method\<close> and
  \<^verbatim>\<open>async_method\<close> that \<^verbatim>\<open>wrap_method\<close> builds around \<^verbatim>\<open>f\<close>.
\<close>

datatype pyval =
    PNone
  | PStr string
  | PList "pyval list"
  | PDict "(string \<times> pyval) list"
  | PObj "(string \<times> pyval) list"
  | PFun string
  | PCoroFun string
  | PSyncMethod string pyval
  | PAsyncMethod string pyval

type_synonym pydict = "(string \<times> pyval) list"

datatype pyerr = KeyError | IndexError | TypeError | AttributeError | ValueError

text \<open>\<^verbatim>\<open>v[k]\<close> for a string key: only a dictionary can be read that way.\<close>

fun getitem_str :: "pyval \<Rightarrow> string \<Rightarrow> pyerr + pyval" where
  "getitem_str (PDict d) k = (case map_of d k of None \<Rightarrow> Inl KeyError | Some v \<Rightarrow> Inr v)"
| "getitem_str _ k = Inl TypeError"

text \<open>\<^verbatim>\<open>v[0]\<close>: the first element of a list or string; a string-keyed dictionary has no key 0.\<close>

fun getitem_0 :: "pyval \<Rightarrow> pyerr + pyval" where
  "getitem_0 (PList []) = Inl IndexError"
| "getitem_0 (PList (x # xs)) = Inr x"
| "getitem_0 (PStr []) = Inl IndexError"
| "getitem_0 (PStr (c # cs)) = Inr (PStr [c])"
| "getitem_0 (PDict d) = Inl KeyError"
| "getitem_0 _ = Inl TypeError"

text \<open>\<^verbatim>\<open>v.get(k, default)\<close>: the method of a dictionary; no other modelled value has it.\<close>

fun dict_get :: "pyval \<Rightarrow> string \<Rightarrow> pyval \<Rightarrow> pyerr + pyval" where
  "dict_get (PDict d) k dflt = Inr (case map_of d k of None \<Rightarrow> dflt | Some v \<Rightarrow> v)"
| "dict_get _ k dflt = Inl AttributeError"

text \<open>\<^verbatim>\<open>getattr(v, name)\<close>, \<^verbatim>\<open>hasattr\<close> and \<^verbatim>\<open>setattr(v, name, x)\<close> on objects.\<close>

fun getattr :: "pyval \<Rightarrow> string \<Rightarrow> pyerr + pyval" where
  "getattr (PObj a) n = (case map_of a n of None \<Rightarrow> Inl AttributeError | Some v \<Rightarrow> Inr v)"
| "getattr _ n = Inl AttributeError"

definition hasattr :: "pyval \<Rightarrow> string \<Rightarrow> bool" where
  "hasattr v n = (case getattr v n of Inl e \<Rightarrow> False | Inr x \<Rightarrow> True)"

fun setattr :: "pyval \<Rightarrow> string \<Rightarrow> pyval \<Rightarrow> pyerr + pyval" where
  "setattr (PObj a) n x = Inr (PObj (AList.update n x a))"
| "setattr _ n x = Inl AttributeError"

text \<open>Truth value of a value in \<^verbatim>\<open>if v:\<close>.\<close>

fun truthy :: "pyval \<Rightarrow> bool" where
  "truthy PNone = False"
| "truthy (PStr s) = (s \<noteq> [])"
| "truthy (PList xs) = (xs \<noteq> [])"
| "truthy (PDict d) = (d \<noteq> [])"
| "truthy _ = True"

text \<open>
  \<^verbatim>\<open>x += y\<close>: strings concatenate into a new string. A list is extended in place, by the
  elements of a list, the characters of a string or the keys of a dictionary, and stays
  the object it was: the value given here is its new content, and whoever else holds
  the list sees it (see \<open>generator\<close>). Anything else is a TypeError.
\<close>

fun py_iadd :: "pyval \<Rightarrow> pyval \<Rightarrow> pyerr + pyval" where
  "py_iadd (PStr a) (PStr b) = Inr (PStr (a @ b))"
| "py_iadd (PList a) (PList b) = Inr (PList (a @ b))"
| "py_iadd (PList a) (PStr b) = Inr (PList (a @ map (\<lambda>c. PStr [c]) b))"
| "py_iadd (PList a) (PDict d) = Inr (PList (a @ map (\<lambda>kv. PStr (fst kv)) d))"
| "py_iadd _ _ = Inl TypeError"

section \<open>Events, the sink and the clock\<close>

record event =
  event_type :: pyval
  params :: pydict
  result :: string
  returns :: pydict
  action_type :: string
  model :: pyval
  prompt :: pyval
  init_timestamp :: nat
  end_timestamp :: nat

text \<open>What the tracker prints, one constructor per \<^verbatim>\<open>print\<close> call of the source.\<close>

datatype printed =
    Unable_to_parse_chunk pydict
  | Unable_to_parse_response pydict
  | Patched_function
  | Print_args "pyval list"
  | Print_kwargs pydict
  | Patched_async_function

text \<open>
  The state the tracker reads and writes: \<^verbatim>\<open>self.event_stream\<close>, the events handed to
  \<^verbatim>\<open>self.client.record\<close> in call order, the printed lines, and the clock. The clock is
  the sequence of readings the environment will give (\<open>clock s i\<close> is reading number
  \<open>i\<close>) together with the number of readings taken so far.
\<close>

record tracker =
  event_stream :: "event option"
  recorded :: "event list"
  stdout :: "printed list"
  clock :: "nat \<Rightarrow> nat"
  ticks :: nat

text \<open>
  Modelled from the spec: \<^verbatim>\<open>get_ISO_time\<close> of \<^verbatim>\<open>agentops/helpers.py\<close>, the clock
  collaborator, which "produces a timestamp string in a fixed ISO 8601 representation".
  A timestamp is the reading itself, a natural number: strings of one fixed ISO 8601
  format are ordered like the instants they denote.
\<close>

definition get_ISO_time :: "tracker \<Rightarrow> nat \<times> tracker" where
  "get_ISO_time s = (clock s (ticks s), s\<lparr>ticks := Suc (ticks s)\<rparr>)"

text \<open>
  Modelled from the spec: \<^verbatim>\<open>record\<close> of the client, the sink collaborator, "one
  operation, record(event) -> None, accepting a completed Event; assumed
  non-blocking/fire-and-forget". The sink keeps the events in the order it received them.
\<close>

definition client_record :: "event \<Rightarrow> tracker \<Rightarrow> tracker" where
  "client_record ev s = s\<lparr>recorded := recorded s @ [ev]\<rparr>"

text \<open>
  Modelled from the spec: the constructor \<^verbatim>\<open>Event\<close> of \<^verbatim>\<open>agentops/event.py\<close>, which
  "accepts event type, params, result status, returns payload, action type, model,
  prompt, and a start timestamp; produces a mutable record whose end timestamp field can
  be set later". An atomic Event is complete as built, with its end timestamp "equal to
  call completion": the constructor stamps the end timestamp with a reading of the clock.
\<close>

definition Event ::
  "pyval \<Rightarrow> pydict \<Rightarrow> string \<Rightarrow> pydict \<Rightarrow> string \<Rightarrow> pyval \<Rightarrow> pyval \<Rightarrow> nat \<Rightarrow> tracker
     \<Rightarrow> event \<times> tracker" where
  "Event etype ps res rets atype mdl prm init s =
     (case get_ISO_time s of (now, s') \<Rightarrow>
        (\<lparr>event_type = etype, params = ps, result = res, returns = rets,
          action_type = atype, model = mdl, prompt = prm,
          init_timestamp = init, end_timestamp = now\<rparr>, s'))"

section \<open>The stream accumulator\<close>

text \<open>
  The reads at the head of \<^verbatim>\<open>handle_stream_chunk\<close>, in source order: \<^verbatim>\<open>chunk['model']\<close>,
  \<^verbatim>\<open>chunk['choices']\<close>, \<^verbatim>\<open>choices[0]['delta'].get('content', '')\<close> and
  \<^verbatim>\<open>choices[0]['finish_reason']\<close>. They touch no state.
\<close>

definition chunk_fields :: "pyval \<Rightarrow> pyerr + (pyval \<times> pyval \<times> pyval)" where
  "chunk_fields chunk =
     (case getitem_str chunk ''model'' of Inl e \<Rightarrow> Inl e | Inr mdl \<Rightarrow>
     (case getitem_str chunk ''choices'' of Inl e \<Rightarrow> Inl e | Inr choices \<Rightarrow>
     (case getitem_0 choices of Inl e \<Rightarrow> Inl e | Inr c0 \<Rightarrow>
     (case getitem_str c0 ''delta'' of Inl e \<Rightarrow> Inl e | Inr delta \<Rightarrow>
     (case dict_get delta ''content'' (PStr '''') of Inl e \<Rightarrow> Inl e | Inr token \<Rightarrow>
     (case getitem_0 choices of Inl e \<Rightarrow> Inl e | Inr c1 \<Rightarrow>
     (case getitem_str c1 ''finish_reason'' of Inl e \<Rightarrow> Inl e
      | Inr finish_reason \<Rightarrow> Inr (mdl, token, finish_reason))))))))"

text \<open>
  The \<^verbatim>\<open>if self.event_stream == None: ... else: ...\<close> of \<^verbatim>\<open>handle_stream_chunk\<close>: open
  the stream with the first token, or append the token to the open Event's content.
  The state returned with an error is the state at the raise.

  The Event is opened with the token object itself as its content. A string is never
  changed, so a string content is a value of the Event alone. A list token stays one
  object, held by the chunk that opened the stream and by the Event: \<^verbatim>\<open>+=\<close> extends it
  in place. The Event's \<^verbatim>\<open>returns\<close> carries the current content of that list; the other
  holder, the opening chunk, is shown with the same content by \<open>generator\<close>.
\<close>

definition accumulate ::
  "pydict \<Rightarrow> nat \<Rightarrow> pyval \<Rightarrow> pyval \<Rightarrow> tracker \<Rightarrow> (pyerr + unit) \<times> tracker" where
  "accumulate kwargs init mdl token s =
     (case event_stream s of
        None \<Rightarrow>
          (case map_of kwargs ''messages'' of
             None \<Rightarrow> (Inl KeyError, s)
           | Some msgs \<Rightarrow>
               (case Event (PStr ''openai stream'') kwargs ''Success''
                       [(''finish_reason'', PNone), (''content'', token)]
                       ''llm'' mdl msgs init s of
                  (ev, s') \<Rightarrow> (Inr (), s'\<lparr>event_stream := Some ev\<rparr>)))
      | Some ev \<Rightarrow>
          (case map_of (returns ev) ''content'' of
             None \<Rightarrow> (Inl KeyError, s)
           | Some c \<Rightarrow>
               (case py_iadd c token of
                  Inl e \<Rightarrow> (Inl e, s)
                | Inr c' \<Rightarrow>
                    (Inr (),
                     s\<lparr>event_stream :=
                         Some (ev\<lparr>returns := AList.update ''content'' c' (returns ev)\<rparr>)\<rparr>))))"

text \<open>
  The \<^verbatim>\<open>if finish_reason: ...\<close> of \<^verbatim>\<open>handle_stream_chunk\<close>: set the finish reason, stamp the
  end timestamp, hand the Event to the sink and clear the slot. It runs after
  \<open>accumulate\<close>, so the slot is filled; \<^verbatim>\<open>None.returns\<close> would be an AttributeError.
\<close>

definition finish :: "pyval \<Rightarrow> tracker \<Rightarrow> (pyerr + unit) \<times> tracker" where
  "finish finish_reason s =
     (if truthy finish_reason then
        (case event_stream s of
           None \<Rightarrow> (Inl AttributeError, s)
         | Some ev \<Rightarrow>
             (let ev1 = ev\<lparr>returns := AList.update ''finish_reason'' finish_reason (returns ev)\<rparr>
              in case get_ISO_time (s\<lparr>event_stream := Some ev1\<rparr>) of
                   (now, s1) \<Rightarrow>
                     (let ev2 = ev1\<lparr>end_timestamp := now\<rparr>;
                          s2 = client_record ev2 (s1\<lparr>event_stream := Some ev2\<rparr>)
                      in (Inr (), s2\<lparr>event_stream := None\<rparr>))))
      else (Inr (), s))"

text \<open>The body of the \<^verbatim>\<open>try\<close> of \<^verbatim>\<open>handle_stream_chunk\<close>.\<close>

definition try_chunk :: "pydict \<Rightarrow> nat \<Rightarrow> pyval \<Rightarrow> tracker \<Rightarrow> (pyerr + unit) \<times> tracker" where
  "try_chunk kwargs init chunk s =
     (case chunk_fields chunk of
        Inl e \<Rightarrow> (Inl e, s)
      | Inr (mdl, token, finish_reason) \<Rightarrow>
          (case accumulate kwargs init mdl token s of
             (Inl e, s') \<Rightarrow> (Inl e, s')
           | (Inr u, s') \<Rightarrow> finish finish_reason s'))"

text \<open>
  \<^verbatim>\<open>handle_stream_chunk\<close>: the bare \<^verbatim>\<open>except:\<close> catches whatever the body raises and
  prints one line; the state is whatever the body left.
\<close>

definition handle_stream_chunk :: "pydict \<Rightarrow> nat \<Rightarrow> pyval \<Rightarrow> tracker \<Rightarrow> tracker" where
  "handle_stream_chunk kwargs init chunk s =
     (case try_chunk kwargs init chunk s of
        (Inl e, s') \<Rightarrow> s'\<lparr>stdout := stdout s' @ [Unable_to_parse_chunk kwargs]\<rparr>
      | (Inr u, s') \<Rightarrow> s')"

text \<open>
  The list that a chunk shares with the Event it opened. \<open>shares_token s s1\<close>: handling
  a chunk took the tracker from \<open>s\<close> to \<open>s1\<close>, the chunk opened the stream and its token
  is a list, which the open Event now keeps as content. \<open>content_of_open s1 s'\<close>: the
  content of the Event that is open in \<open>s1\<close>, as it is in a later state \<open>s'\<close>: still in the
  slot, or, the slot holding one Event at a time, in the first Event handed to the sink
  since (the tracker does not touch an Event after that). \<open>set_token chunk v\<close>: the chunk
  with \<open>v\<close> as the content of the list at \<^verbatim>\<open>chunk['choices'][0]['delta']['content']\<close>.
\<close>

definition shares_token :: "tracker \<Rightarrow> tracker \<Rightarrow> bool" where
  "shares_token s s1 =
     (event_stream s = None \<and>
      (case event_stream s1 of
         None \<Rightarrow> False
       | Some ev \<Rightarrow>
           (case map_of (returns ev) ''content'' of Some (PList xs) \<Rightarrow> True | _ \<Rightarrow> False)))"

definition content_of_open :: "tracker \<Rightarrow> tracker \<Rightarrow> pyval option" where
  "content_of_open s1 s' =
     (case drop (length (recorded s1)) (recorded s') of
        ev # evs \<Rightarrow> map_of (returns ev) ''content''
      | [] \<Rightarrow>
          (case event_stream s' of
             None \<Rightarrow> None
           | Some ev \<Rightarrow> map_of (returns ev) ''content''))"

definition set_token :: "pyval \<Rightarrow> pyval \<Rightarrow> pyval" where
  "set_token chunk v =
     (case chunk of
        PDict d \<Rightarrow>
          (case map_of d ''choices'' of
             Some (PList (PDict e # cs)) \<Rightarrow>
               (case map_of e ''delta'' of
                  Some (PDict f) \<Rightarrow>
                    PDict (AList.update ''choices''
                      (PList (PDict (AList.update ''delta''
                         (PDict (AList.update ''content'' v f)) e) # cs)) d)
                | _ \<Rightarrow> chunk)
           | _ \<Rightarrow> chunk)
      | _ \<Rightarrow> chunk)"

text \<open>
  \<^verbatim>\<open>generator()\<close>: \<^verbatim>\<open>for chunk in response: handle_stream_chunk(chunk); yield chunk\<close>.
  The generator runs only as far as its caller pulls: \<open>generator kwargs init chunks n s\<close>
  is what a caller that asks for at most \<open>n\<close> items holds once the pulls are done, and
  the state the tracker is left in. A caller that iterates to the end asks for
  \<open>length chunks\<close> items or more. Every chunk is yielded as the very object received; a
  chunk that shares its token list with the Event it opened shows, in the caller's
  hands, what the later chunks of these pulls appended to that list.
\<close>

fun generator :: "pydict \<Rightarrow> nat \<Rightarrow> pyval list \<Rightarrow> nat \<Rightarrow> tracker \<Rightarrow> pyval list \<times> tracker" where
  "generator kwargs init [] n s = ([], s)"
| "generator kwargs init (chunk # rest) 0 s = ([], s)"
| "generator kwargs init (chunk # rest) (Suc n) s =
     (let s1 = handle_stream_chunk kwargs init chunk s
      in case generator kwargs init rest n s1 of
           (ys, s') \<Rightarrow>
             ((if shares_token s s1 then
                 (case content_of_open s1 s' of None \<Rightarrow> chunk | Some v \<Rightarrow> set_token chunk v)
               else chunk) # ys, s'))"

section \<open>The response normalizer\<close>

text \<open>
  What an intercepted call returns: an asynchronous generator
  (\<^verbatim>\<open>inspect.isasyncgen\<close>), a generator (\<^verbatim>\<open>inspect.isgenerator\<close>), each given by the chunks
  it will yield, or any other value.
\<close>

datatype response =
    Async_generator "pyval list"
  | Generator "pyval list"
  | Value pyval

text \<open>
  What the normalizer returns: the \<^verbatim>\<open>generator()\<close> it builds over an asynchronous or a
  synchronous response, closed over \<^verbatim>\<open>kwargs\<close> and \<^verbatim>\<open>init_timestamp\<close> (iterating either
  one is \<open>generator\<close> above), or the response itself.
\<close>

datatype returned =
    Async_generator_wrapper pydict nat "pyval list"
  | Generator_wrapper pydict nat "pyval list"
  | Unmodified response

text \<open>
  The \<^verbatim>\<open>try\<close> of the atomic branch of \<^verbatim>\<open>_handle_response_openai\<close>. The arguments of
  \<^verbatim>\<open>Event(...)\<close> are evaluated in the order written: \<^verbatim>\<open>response.object\<close>,
  \<^verbatim>\<open>response.choices[0].message\<close>, \<^verbatim>\<open>response.model\<close>, \<^verbatim>\<open>kwargs['messages']\<close>; then the
  Event is built and handed to the sink.
\<close>

definition try_response_openai ::
  "pyval \<Rightarrow> pydict \<Rightarrow> nat \<Rightarrow> tracker \<Rightarrow> (pyerr + unit) \<times> tracker" where
  "try_response_openai response kwargs init s =
     (case getattr response ''object'' of Inl e \<Rightarrow> (Inl e, s) | Inr obj \<Rightarrow>
     (case getattr response ''choices'' of Inl e \<Rightarrow> (Inl e, s) | Inr choices \<Rightarrow>
     (case getitem_0 choices of Inl e \<Rightarrow> (Inl e, s) | Inr c0 \<Rightarrow>
     (case getattr c0 ''message'' of Inl e \<Rightarrow> (Inl e, s) | Inr message \<Rightarrow>
     (case getattr response ''model'' of Inl e \<Rightarrow> (Inl e, s) | Inr mdl \<Rightarrow>
     (case map_of kwargs ''messages'' of None \<Rightarrow> (Inl KeyError, s) | Some msgs \<Rightarrow>
     (case Event obj kwargs ''Success'' [(''content'', message)] ''llm'' mdl msgs init s of
        (ev, s') \<Rightarrow> (Inr (), client_record ev s'))))))))"

text \<open>\<^verbatim>\<open>_handle_response_openai\<close>.\<close>

definition handle_response_openai ::
  "response \<Rightarrow> pydict \<Rightarrow> nat \<Rightarrow> tracker \<Rightarrow> returned \<times> tracker" where
  "handle_response_openai response kwargs init s =
     (case response of
        Async_generator chunks \<Rightarrow> (Async_generator_wrapper kwargs init chunks, s)
      | Generator chunks \<Rightarrow> (Generator_wrapper kwargs init chunks, s)
      | Value v \<Rightarrow>
          (case try_response_openai v kwargs init s of
             (Inl e, s') \<Rightarrow>
               (Unmodified response, s'\<lparr>stdout := stdout s' @ [Unable_to_parse_response kwargs]\<rparr>)
           | (Inr u, s') \<Rightarrow> (Unmodified response, s')))"

text \<open>
  The \<^verbatim>\<open>try\<close> of the atomic branch of \<^verbatim>\<open>_handle_async_response_openai\<close>: the same Event
  from the string-keyed reads \<^verbatim>\<open>response['object']\<close>,
  \<^verbatim>\<open>response['choices'][0]['message']['content']\<close>, \<^verbatim>\<open>response['model']\<close>.
\<close>

definition try_async_response_openai ::
  "pyval \<Rightarrow> pydict \<Rightarrow> nat \<Rightarrow> tracker \<Rightarrow> (pyerr + unit) \<times> tracker" where
  "try_async_response_openai response kwargs init s =
     (case getitem_str response ''object'' of Inl e \<Rightarrow> (Inl e, s) | Inr obj \<Rightarrow>
     (case getitem_str response ''choices'' of Inl e \<Rightarrow> (Inl e, s) | Inr choices \<Rightarrow>
     (case getitem_0 choices of Inl e \<Rightarrow> (Inl e, s) | Inr c0 \<Rightarrow>
     (case getitem_str c0 ''message'' of Inl e \<Rightarrow> (Inl e, s) | Inr message \<Rightarrow>
     (case getitem_str message ''content'' of Inl e \<Rightarrow> (Inl e, s) | Inr content \<Rightarrow>
     (case getitem_str response ''model'' of Inl e \<Rightarrow> (Inl e, s) | Inr mdl \<Rightarrow>
     (case map_of kwargs ''messages'' of None \<Rightarrow> (Inl KeyError, s) | Some msgs \<Rightarrow>
     (case Event obj kwargs ''Success'' [(''content'', content)] ''llm'' mdl msgs init s of
        (ev, s') \<Rightarrow> (Inr (), client_record ev s')))))))))"

text \<open>
  \<^verbatim>\<open>_handle_async_response_openai\<close>. Its stream branches repeat those of
  \<^verbatim>\<open>_handle_response_openai\<close> word for word. Nothing in the source calls it.
\<close>

definition handle_async_response_openai ::
  "response \<Rightarrow> pydict \<Rightarrow> nat \<Rightarrow> tracker \<Rightarrow> returned \<times> tracker" where
  "handle_async_response_openai response kwargs init s =
     (case response of
        Async_generator chunks \<Rightarrow> (Async_generator_wrapper kwargs init chunks, s)
      | Generator chunks \<Rightarrow> (Generator_wrapper kwargs init chunks, s)
      | Value v \<Rightarrow>
          (case try_async_response_openai v kwargs init s of
             (Inl e, s') \<Rightarrow>
               (Unmodified response, s'\<lparr>stdout := stdout s' @ [Unable_to_parse_response kwargs]\<rparr>)
           | (Inr u, s') \<Rightarrow> (Unmodified response, s')))"

section \<open>The method interceptor\<close>

text \<open>\<^verbatim>\<open>handle_response\<close> of \<^verbatim>\<open>_override_method\<close>.\<close>

definition handle_response ::
  "string \<Rightarrow> response \<Rightarrow> pydict \<Rightarrow> nat \<Rightarrow> tracker \<Rightarrow> returned \<times> tracker" where
  "handle_response api res kwargs init s =
     (if api = ''openai'' then handle_response_openai res kwargs init s
      else (Unmodified res, s))"

text \<open>
  \<^verbatim>\<open>sync_method\<close> and \<^verbatim>\<open>async_method\<close>, the two wrappers of \<^verbatim>\<open>wrap_method\<close>. The original
  method is a function of its arguments that returns a response or raises; an
  exception of the original leaves the wrapper as it is. Awaiting the original is
  calling it.
\<close>

definition sync_method ::
  "string \<Rightarrow> (pyval list \<Rightarrow> pydict \<Rightarrow> pyerr + response) \<Rightarrow> pyval list \<Rightarrow> pydict \<Rightarrow> tracker
     \<Rightarrow> (pyerr + returned) \<times> tracker" where
  "sync_method api original_method args kwargs s =
     (case get_ISO_time s of
        (init, s1) \<Rightarrow>
          (case original_method args kwargs of
             Inl e \<Rightarrow> (Inl e, s1)
           | Inr res \<Rightarrow>
               (case handle_response api res kwargs init s1 of (r, s2) \<Rightarrow> (Inr r, s2))))"

definition async_method ::
  "string \<Rightarrow> (pyval list \<Rightarrow> pydict \<Rightarrow> pyerr + response) \<Rightarrow> pyval list \<Rightarrow> pydict \<Rightarrow> tracker
     \<Rightarrow> (pyerr + returned) \<times> tracker" where
  "async_method api original_method args kwargs s =
     (case get_ISO_time s of
        (init, s1) \<Rightarrow>
          (case original_method args kwargs of
             Inl e \<Rightarrow> (Inl e, s1)
           | Inr res \<Rightarrow>
               (case handle_response api res kwargs init s1 of (r, s2) \<Rightarrow> (Inr r, s2))))"

text \<open>
  \<^verbatim>\<open>patched_function\<close> of \<^verbatim>\<open>override_openai_completion\<close> and of
  \<^verbatim>\<open>override_openai_async_completion\<close>: the result of the normalizer is dropped and the
  result of the original is returned.
\<close>

definition patched_function ::
  "(pyval list \<Rightarrow> pydict \<Rightarrow> pyerr + response) \<Rightarrow> pyval list \<Rightarrow> pydict \<Rightarrow> tracker
     \<Rightarrow> (pyerr + response) \<times> tracker" where
  "patched_function original_create args kwargs s =
     (let s0 = s\<lparr>stdout := stdout s @ [Patched_function, Print_args args, Print_kwargs kwargs]\<rparr>
      in case original_create args kwargs of
           Inl e \<Rightarrow> (Inl e, s0)
         | Inr res \<Rightarrow>
             (case get_ISO_time s0 of
                (now, s1) \<Rightarrow>
                  (case handle_response_openai res kwargs now s1 of
                     (r, s2) \<Rightarrow> (Inr res, s2))))"

definition patched_async_function ::
  "(pyval list \<Rightarrow> pydict \<Rightarrow> pyerr + response) \<Rightarrow> pyval list \<Rightarrow> pydict \<Rightarrow> tracker
     \<Rightarrow> (pyerr + response) \<times> tracker" where
  "patched_async_function original_create args kwargs s =
     (let s0 = s\<lparr>stdout := stdout s @ [Patched_async_function]\<rparr>
      in case original_create args kwargs of
           Inl e \<Rightarrow> (Inl e, s0)
         | Inr res \<Rightarrow>
             (case get_ISO_time s0 of
                (now, s1) \<Rightarrow>
                  (case handle_response_openai res kwargs now s1 of
                     (r, s2) \<Rightarrow> (Inr res, s2))))"

text \<open>\<^verbatim>\<open>inspect.iscoroutinefunction\<close> and \<^verbatim>\<open>wrap_method\<close> on the values of a module.\<close>

fun iscoroutinefunction :: "pyval \<Rightarrow> bool" where
  "iscoroutinefunction (PCoroFun f) = True"
| "iscoroutinefunction (PAsyncMethod api f) = True"
| "iscoroutinefunction _ = False"

definition wrap_method :: "string \<Rightarrow> pyval \<Rightarrow> pyval" where
  "wrap_method api original_method =
     (if iscoroutinefunction original_method then PAsyncMethod api original_method
      else PSyncMethod api original_method)"

text \<open>\<^verbatim>\<open>method_path.split(".")\<close>.\<close>

fun split_dot :: "string \<Rightarrow> string list" where
  "split_dot [] = [[]]"
| "split_dot (c # cs) =
     (if c = CHR ''.'' then [] # split_dot cs
      else (case split_dot cs of [] \<Rightarrow> [[c]] | p # ps \<Rightarrow> (c # p) # ps))"

text \<open>\<^verbatim>\<open>functools.reduce(getattr, parts, module)\<close>.\<close>

fun reduce_getattr :: "string list \<Rightarrow> pyval \<Rightarrow> pyerr + pyval" where
  "reduce_getattr [] v = Inr v"
| "reduce_getattr (p # ps) v =
     (case getattr v p of Inl e \<Rightarrow> Inl e | Inr w \<Rightarrow> reduce_getattr ps w)"

text \<open>
  \<^verbatim>\<open>setattr(functools.reduce(getattr, parts, module), name, x)\<close>, seen from the module:
  the object the path leads to is changed in place, so the module that holds it changes
  with it. An object is reached by one path only (the graph is a tree).
\<close>

fun setattr_at :: "string list \<Rightarrow> pyval \<Rightarrow> string \<Rightarrow> pyval \<Rightarrow> pyerr + pyval" where
  "setattr_at [] v n x = setattr v n x"
| "setattr_at (p # ps) v n x =
     (case getattr v p of
        Inl e \<Rightarrow> Inl e
      | Inr w \<Rightarrow>
          (case setattr_at ps w n x of Inl e \<Rightarrow> Inl e | Inr w' \<Rightarrow> setattr v p w'))"

text \<open>
  \<^verbatim>\<open>_override_method\<close>: the outcome and the module as the call leaves it.
\<close>

definition override_method :: "string \<Rightarrow> string \<Rightarrow> pyval \<Rightarrow> (pyerr + unit) \<times> pyval" where
  "override_method api method_path module =
     (let method_parts = split_dot method_path
      in case reduce_getattr method_parts module of
           Inl e \<Rightarrow> (Inl e, module)
         | Inr original_method \<Rightarrow>
             (let new_method = wrap_method api original_method
              in if length method_parts = 1 then
                   (case setattr module (hd method_parts) new_method of
                      Inl e \<Rightarrow> (Inl e, module)
                    | Inr module' \<Rightarrow> (Inr (), module'))
                 else
                   (case setattr_at (butlast method_parts) module (last method_parts) new_method of
                      Inl e \<Rightarrow> (Inl e, module)
                    | Inr module' \<Rightarrow> (Inr (), module'))))"

section \<open>The version resolver\<close>

text \<open>
  A registry maps a provider name to its versions, and a version string to the method
  paths to intercept. \<^verbatim>\<open>SUPPORTED_APIS\<close> is the registry of the class.
\<close>

type_synonym versions = "(string \<times> string list) list"
type_synonym registry = "(string \<times> versions) list"

definition SUPPORTED_APIS :: registry where
  "SUPPORTED_APIS =
     [(''openai'',
       [(''1.0.0'', [''chat.completions.create'']),
        (''0.0.0'', [''ChatCompletion.create'', ''ChatCompletion.acreate''])])]"

text \<open>
  \<^verbatim>\<open>for method_path in paths: self._override_method(api, method_path, module)\<close>: the first
  path that raises ends the loop, with the earlier paths installed.
\<close>

fun override_methods :: "string \<Rightarrow> string list \<Rightarrow> pyval \<Rightarrow> (pyerr + unit) \<times> pyval" where
  "override_methods api [] module = (Inr (), module)"
| "override_methods api (method_path # rest) module =
     (case override_method api method_path module of
        (Inl e, module') \<Rightarrow> (Inl e, module')
      | (Inr u, module') \<Rightarrow> override_methods api rest module')"

text \<open>
  \<^verbatim>\<open>sorted(keys, key=parse, reverse=True)\<close>: a stable sort, so keys of equal version keep
  their order. \<^verbatim>\<open>parse\<close> is \<^verbatim>\<open>packaging.version.parse\<close>, a parameter of the model: any
  function from version strings into a linear order.
\<close>

definition sorted_reverse :: "(string \<Rightarrow> 'v::linorder) \<Rightarrow> string list \<Rightarrow> string list" where
  "sorted_reverse parse keys = rev (sort_key parse (rev keys))"

text \<open>
  The loop \<^verbatim>\<open>for version in sorted(...): if module_version >= parse(version): ...; break\<close>
  of \<^verbatim>\<open>override_api\<close>.
\<close>

fun version_loop ::
  "(string \<Rightarrow> 'v::linorder) \<Rightarrow> string \<Rightarrow> versions \<Rightarrow> 'v \<Rightarrow> string list \<Rightarrow> pyval
     \<Rightarrow> (pyerr + unit) \<times> pyval" where
  "version_loop parse api vs module_version [] module = (Inr (), module)"
| "version_loop parse api vs module_version (version # rest) module =
     (if module_version \<ge> parse version then
        (case map_of vs version of
           None \<Rightarrow> (Inl KeyError, module)
         | Some paths \<Rightarrow> override_methods api paths module)
      else version_loop parse api vs module_version rest module)"

text \<open>
  \<^verbatim>\<open>override_api\<close>, on \<^verbatim>\<open>sys.modules\<close>: \<^verbatim>\<open>import_module(api)\<close> of a loaded module is its
  entry in \<^verbatim>\<open>sys.modules\<close>, and the wrappers are installed in that module in place.
\<close>

definition override_api ::
  "(string \<Rightarrow> 'v::linorder) \<Rightarrow> registry \<Rightarrow> string \<Rightarrow> pydict \<Rightarrow> (pyerr + unit) \<times> pydict" where
  "override_api parse apis api sys_modules =
     (case map_of sys_modules api of
        None \<Rightarrow> (Inr (), sys_modules)
      | Some module \<Rightarrow>
          (case map_of apis api of
             None \<Rightarrow> (Inl ValueError, sys_modules)
           | Some vs \<Rightarrow>
               (case
                  (if hasattr module ''__version__'' then
                     (case getattr module ''__version__'' of
                        Inr (PStr v) \<Rightarrow>
                          version_loop parse api vs (parse v)
                            (sorted_reverse parse (map fst vs)) module
                      | _ \<Rightarrow> (Inl TypeError, module))
                   else
                     (case map_of vs ''0.0.0'' of
                        None \<Rightarrow> (Inl KeyError, module)
                      | Some paths \<Rightarrow> override_methods api paths module))
                of (r, module') \<Rightarrow> (r, AList.update api module' sys_modules))))"

text \<open>
  The resolver as the specification words it: with a declared version, go through the
  registered versions in descending order and take the method paths of the first one
  that is at most the module's version; with none, take the paths of \<^verbatim>\<open>0.0.0\<close>.
  \<open>None\<close> when there is no such version.
\<close>

definition resolve ::
  "(string \<Rightarrow> 'v::linorder) \<Rightarrow> versions \<Rightarrow> string option \<Rightarrow> string list option" where
  "resolve parse vs declared =
     (case declared of
        None \<Rightarrow> map_of vs ''0.0.0''
      | Some v \<Rightarrow>
          (case find (\<lambda>r. parse r \<le> parse v) (sorted_reverse parse (map fst vs)) of
             None \<Rightarrow> None
           | Some r \<Rightarrow> map_of vs r))"

text \<open>
  An instance of \<^verbatim>\<open>parse\<close> for plain release versions such as \<^verbatim>\<open>1.2.0\<close>, the form of the
  registry's keys: the numbers between the dots, compared from the left, trailing
  zeros dropped (\<^verbatim>\<open>1.0\<close> is \<^verbatim>\<open>1.0.0\<close>).
\<close>

definition decimal :: "string \<Rightarrow> nat" where
  "decimal ds = foldl (\<lambda>n c. 10 * n + (of_char c - 48)) 0 ds"

definition parse_release :: "string \<Rightarrow> nat list" where
  "parse_release v = rev (dropWhile (\<lambda>n. n = 0) (rev (map decimal (split_dot v))))"

section \<open>Reading a stream\<close>

text \<open>
  The token of a chunk as text and the finish reason of a chunk, for the statements
  below: what \<open>chunk_fields\<close> reads, when it reads it.
\<close>

definition token_text :: "pyval \<Rightarrow> string option" where
  "token_text chunk =
     (case chunk_fields chunk of
        Inr (mdl, PStr t, finish_reason) \<Rightarrow> Some t
      | _ \<Rightarrow> None)"

definition finish_reason_of :: "pyval \<Rightarrow> pyval option" where
  "finish_reason_of chunk =
     (case chunk_fields chunk of
        Inr (mdl, token, finish_reason) \<Rightarrow> Some finish_reason
      | Inl e \<Rightarrow> None)"

definition tokens_text :: "pyval list \<Rightarrow> string" where
  "tokens_text chunks = concat (map (\<lambda>c. case token_text c of None \<Rightarrow> [] | Some t \<Rightarrow> t) chunks)"



text \<open>A chunk as the provider sends it, and a tracker that has done nothing yet.\<close>

definition mk_chunk :: "string \<Rightarrow> pydict \<Rightarrow> pyval \<Rightarrow> pyval" where
  "mk_chunk mdl delta finish_reason =
     PDict [(''model'', PStr mdl),
            (''choices'', PList [PDict [(''delta'', PDict delta),
                                        (''finish_reason'', finish_reason)]])]"

definition fresh :: tracker where
  "fresh = \<lparr>event_stream = None, recorded = [], stdout = [], clock = (\<lambda>i. i), ticks = 0\<rparr>"

text \<open>
  What a caller who pulls at most \<open>n\<close> items from a streamed result holds once the pulls
  are done, and the state of the tracker then. Iterating a wrapper runs \<open>generator\<close>; iterating the
  provider's own sequence runs no code of the tracker. A value that is not a stream is
  not iterated.
\<close>

fun pull :: "returned \<Rightarrow> nat \<Rightarrow> tracker \<Rightarrow> (pyval list \<times> tracker) option" where
  "pull (Async_generator_wrapper kwargs init chunks) n s = Some (generator kwargs init chunks n s)"
| "pull (Generator_wrapper kwargs init chunks) n s = Some (generator kwargs init chunks n s)"
| "pull (Unmodified (Async_generator chunks)) n s = Some (take n chunks, s)"
| "pull (Unmodified (Generator chunks)) n s = Some (take n chunks, s)"
| "pull (Unmodified (Value v)) n s = None"

definition is_stream :: "response \<Rightarrow> bool" where
  "is_stream res = (case res of Value v \<Rightarrow> False | _ \<Rightarrow> True)"

section \<open>Lemmas on the stream accumulator\<close>

lemma generator_snd:
  "snd (generator kwargs init chunks n s) =
     foldl (\<lambda>s c. handle_stream_chunk kwargs init c s) s (take n chunks)"
proof (induction chunks arbitrary: n s)
  case Nil
  show ?case by simp
next
  case (Cons c cs)
  show ?case
  proof (cases n)
    case 0
    then show ?thesis by simp
  next
    case (Suc m)
    have "snd (generator kwargs init (c # cs) (Suc m) s) =
            snd (generator kwargs init cs m (handle_stream_chunk kwargs init c s))"
      by (simp add: Let_def split: prod.splits)
    with Suc Cons.IH show ?thesis by simp
  qed
qed

lemma accumulate_raise: "accumulate kwargs init mdl token s = (Inl e, s') \<Longrightarrow> s' = s"
  by (auto simp: accumulate_def Event_def get_ISO_time_def
      split: option.splits sum.splits prod.splits)

lemma accumulate_opens:
  "accumulate kwargs init mdl token s = (Inr u, s') \<Longrightarrow>
     event_stream s' \<noteq> None \<and> recorded s' = recorded s"
  by (auto simp: accumulate_def Event_def get_ISO_time_def
      split: option.splits sum.splits prod.splits)

lemma finish_raise: "event_stream s \<noteq> None \<Longrightarrow> fst (finish fr s) \<noteq> Inl e"
  by (auto simp: finish_def Let_def get_ISO_time_def split: option.splits prod.splits)

lemma try_chunk_raise:
  assumes "fst (try_chunk kwargs init chunk s) = Inl e"
  shows "snd (try_chunk kwargs init chunk s) = s"
proof (cases "chunk_fields chunk")
  case (Inl a)
  then show ?thesis by (simp add: try_chunk_def)
next
  case (Inr f)
  obtain mdl token fr where f: "f = (mdl, token, fr)" by (cases f) auto
  obtain r s' where a: "accumulate kwargs init mdl token s = (r, s')"
    by (cases "accumulate kwargs init mdl token s") auto
  show ?thesis
  proof (cases r)
    case (Inl e')
    with a have "s' = s" by (auto dest: accumulate_raise)
    with Inr f a Inl show ?thesis by (simp add: try_chunk_def)
  next
    case (Inr u)
    with a have "event_stream s' \<noteq> None" using accumulate_opens by blast
    then have "fst (finish fr s') \<noteq> Inl e" by (rule finish_raise)
    with assms \<open>chunk_fields chunk = Inr f\<close> f a Inr show ?thesis by (simp add: try_chunk_def)
  qed
qed

lemma handle_not_shared:
  assumes "\<forall>mdl xs fr. chunk_fields c \<noteq> Inr (mdl, PList xs, fr)"
  shows "\<not> shares_token s (handle_stream_chunk kwargs init c s)"
proof (cases "chunk_fields c")
  case (Inl e)
  then show ?thesis
    by (auto simp: shares_token_def handle_stream_chunk_def try_chunk_def split: option.splits)
next
  case (Inr f)
  obtain mdl token fr where f: "f = (mdl, token, fr)" by (cases f) auto
  with Inr assms have "\<forall>xs. token \<noteq> PList xs" by auto
  with Inr f show ?thesis
    by (auto simp: shares_token_def handle_stream_chunk_def try_chunk_def accumulate_def
        finish_def Event_def get_ISO_time_def client_record_def Let_def
        split: option.splits pyval.splits list.splits)
qed

lemma generator_fst_unshared:
  assumes "\<forall>c\<in>set (take n chunks). \<forall>mdl xs fr. chunk_fields c \<noteq> Inr (mdl, PList xs, fr)"
  shows "fst (generator kwargs init chunks n s) = take n chunks"
  using assms
proof (induction chunks arbitrary: n s)
  case Nil
  show ?case by simp
next
  case (Cons c cs)
  show ?case
  proof (cases n)
    case 0
    then show ?thesis by simp
  next
    case (Suc m)
    from Cons.prems Suc
    have c: "\<forall>mdl xs fr. chunk_fields c \<noteq> Inr (mdl, PList xs, fr)"
      and cs: "\<forall>c\<in>set (take m cs). \<forall>mdl xs fr. chunk_fields c \<noteq> Inr (mdl, PList xs, fr)"
      by simp_all
    obtain ys s' where
      g: "generator kwargs init cs m (handle_stream_chunk kwargs init c s) = (ys, s')"
      by (cases "generator kwargs init cs m (handle_stream_chunk kwargs init c s)") auto
    from Cons.IH [OF cs, of "handle_stream_chunk kwargs init c s"] g
    have "ys = take m cs" by simp
    with handle_not_shared [OF c, of s kwargs init] g Suc
    show ?thesis by (simp add: Let_def)
  qed
qed



lemma token_textD:
  "token_text c = Some t \<Longrightarrow> \<exists>mdl fr. chunk_fields c = Inr (mdl, PStr t, fr)"
  by (auto simp: token_text_def split: sum.splits prod.splits pyval.splits)

lemma text_token_not_list:
  "token_text c \<noteq> None \<Longrightarrow> chunk_fields c \<noteq> Inr (mdl, PList xs, fr)"
  by (auto simp: token_text_def)

lemma chunk_fields_mk_chunk:
  "chunk_fields (mk_chunk m d fr) =
     Inr (PStr m, (case map_of d ''content'' of None \<Rightarrow> PStr [] | Some v \<Rightarrow> v), fr)"
  by (simp add: chunk_fields_def mk_chunk_def)

lemma handle_append:
  assumes "event_stream s = Some ev" and "map_of (returns ev) ''content'' = Some (PStr acc)"
    and "chunk_fields c = Inr (mdl, PStr t, fr)" and "\<not> truthy fr"
  shows "handle_stream_chunk kwargs init c s =
           s\<lparr>event_stream :=
               Some (ev\<lparr>returns := AList.update ''content'' (PStr (acc @ t)) (returns ev)\<rparr>)\<rparr>"
  using assms by (simp add: handle_stream_chunk_def try_chunk_def accumulate_def finish_def)

lemma handle_open:
  assumes "event_stream s = None" and "map_of kwargs ''messages'' = Some msgs"
    and "chunk_fields c = Inr (mdl, PStr t, fr)" and "\<not> truthy fr"
  shows "\<exists>ev. event_stream (handle_stream_chunk kwargs init c s) = Some ev \<and>
           map_of (returns ev) ''content'' = Some (PStr t) \<and>
           recorded (handle_stream_chunk kwargs init c s) = recorded s"
  using assms
  by (simp add: handle_stream_chunk_def try_chunk_def accumulate_def finish_def Event_def
      get_ISO_time_def)

lemma handle_final_appended:
  assumes "event_stream s = Some ev" and "map_of (returns ev) ''content'' = Some (PStr acc)"
    and "chunk_fields c = Inr (mdl, PStr t, fr)" and "truthy fr"
  shows "\<exists>ev'. recorded (handle_stream_chunk kwargs init c s) = recorded s @ [ev'] \<and>
           map_of (returns ev') ''content'' = Some (PStr (acc @ t)) \<and>
           map_of (returns ev') ''finish_reason'' = Some fr \<and>
           event_stream (handle_stream_chunk kwargs init c s) = None"
  using assms
  by (simp add: handle_stream_chunk_def try_chunk_def accumulate_def finish_def Let_def
      get_ISO_time_def client_record_def update_conv')

lemma handle_final_opened:
  assumes "event_stream s = None" and "map_of kwargs ''messages'' = Some msgs"
    and "chunk_fields c = Inr (mdl, PStr t, fr)" and "truthy fr"
  shows "\<exists>ev'. recorded (handle_stream_chunk kwargs init c s) = recorded s @ [ev'] \<and>
           map_of (returns ev') ''content'' = Some (PStr t) \<and>
           map_of (returns ev') ''finish_reason'' = Some fr \<and>
           event_stream (handle_stream_chunk kwargs init c s) = None"
  using assms
  by (simp add: handle_stream_chunk_def try_chunk_def accumulate_def finish_def Let_def
      Event_def get_ISO_time_def client_record_def update_conv')

lemma silent_chunkD:
  assumes "token_text c \<noteq> None" and "\<forall>fr. finish_reason_of c = Some fr \<longrightarrow> \<not> truthy fr"
  shows "\<exists>mdl t fr. chunk_fields c = Inr (mdl, PStr t, fr) \<and> \<not> truthy fr \<and> token_text c = Some t"
proof -
  from assms(1) obtain t where t: "token_text c = Some t" by auto
  then obtain mdl fr where f: "chunk_fields c = Inr (mdl, PStr t, fr)"
    using token_textD by blast
  then have "finish_reason_of c = Some fr" by (simp add: finish_reason_of_def)
  with assms(2) have "\<not> truthy fr" by simp
  with f t show ?thesis by blast
qed

lemma tokens_text_Nil: "tokens_text [] = []"
  by (simp add: tokens_text_def)

lemma tokens_text_Cons: "token_text c = Some t \<Longrightarrow> tokens_text (c # cs) = t @ tokens_text cs"
  by (simp add: tokens_text_def)

lemma tokens_text_append: "tokens_text (xs @ ys) = tokens_text xs @ tokens_text ys"
  by (simp add: tokens_text_def)

lemma foldl_append_tokens:
  assumes "\<forall>c\<in>set cs. token_text c \<noteq> None \<and>
             (\<forall>fr. finish_reason_of c = Some fr \<longrightarrow> \<not> truthy fr)"
    and "event_stream s = Some ev" and "map_of (returns ev) ''content'' = Some (PStr acc)"
  shows "\<exists>ev'. event_stream (foldl (\<lambda>s c. handle_stream_chunk kwargs init c s) s cs) = Some ev' \<and>
           map_of (returns ev') ''content'' = Some (PStr (acc @ tokens_text cs)) \<and>
           recorded (foldl (\<lambda>s c. handle_stream_chunk kwargs init c s) s cs) = recorded s"
  using assms
proof (induction cs arbitrary: s ev acc)
  case Nil
  then show ?case by (simp add: tokens_text_def)
next
  case (Cons c cs)
  from Cons.prems(1) obtain mdl t fr where
    f: "chunk_fields c = Inr (mdl, PStr t, fr)" and fr: "\<not> truthy fr"
    and t: "token_text c = Some t"
    using silent_chunkD [of c] by auto
  let ?ev = "ev\<lparr>returns := AList.update ''content'' (PStr (acc @ t)) (returns ev)\<rparr>"
  let ?s = "s\<lparr>event_stream := Some ?ev\<rparr>"
  have step: "handle_stream_chunk kwargs init c s = ?s"
    using handle_append [OF Cons.prems(2) Cons.prems(3) f fr] .
  have rest: "\<forall>c\<in>set cs. token_text c \<noteq> None \<and>
                (\<forall>fr. finish_reason_of c = Some fr \<longrightarrow> \<not> truthy fr)"
    using Cons.prems(1) by simp
  have es: "event_stream ?s = Some ?ev" by simp
  have ct: "map_of (returns ?ev) ''content'' = Some (PStr (acc @ t))"
    by (simp add: update_conv')
  from Cons.IH [OF rest es ct] step t show ?case by (simp add: tokens_text_Cons)
qed

section \<open>Streams\<close>

text \<open>
  C1, as amended. A stream of chunks that all parse with a string token (a delta
  without content counts as the empty string), whose last chunk is the only one with a
  true finish reason (neither null nor empty), is iterated to its end through the
  wrapped generator by a tracker whose open-stream slot is empty, for a call whose
  keyword arguments hold \<^verbatim>\<open>messages\<close>. Then every chunk is yielded, exactly one Event is
  handed to the sink, its \<^verbatim>\<open>returns['content']\<close> is the concatenation of the tokens in
  arrival order, its \<^verbatim>\<open>returns['finish_reason']\<close> is the finish reason of the last chunk,
  and the slot is empty again.
\<close>

theorem stream_records_one_event:
  assumes slot: "event_stream s = None"
    and msgs: "map_of kwargs ''messages'' \<noteq> None"
    and front: "\<forall>c\<in>set front. token_text c \<noteq> None \<and>
                  (\<forall>r. finish_reason_of c = Some r \<longrightarrow> \<not> truthy r)"
    and final: "token_text final \<noteq> None" "finish_reason_of final = Some fr" "truthy fr"
  shows "fst (generator kwargs init (front @ [final]) (length (front @ [final])) s)
           = front @ [final] \<and>
         (\<exists>ev. recorded (snd (generator kwargs init (front @ [final])
                                 (length (front @ [final])) s))
                  = recorded s @ [ev] \<and>
               map_of (returns ev) ''content'' = Some (PStr (tokens_text (front @ [final]))) \<and>
               map_of (returns ev) ''finish_reason'' = Some fr) \<and>
         event_stream (snd (generator kwargs init (front @ [final])
                              (length (front @ [final])) s)) = None"
proof -
  let ?step = "\<lambda>s c. handle_stream_chunk kwargs init c s"
  from msgs obtain m where m: "map_of kwargs ''messages'' = Some m" by auto
  from final(1) obtain t where t: "token_text final = Some t" by auto
  then obtain mdl r where "chunk_fields final = Inr (mdl, PStr t, r)"
    using token_textD by blast
  with final(2) have ff: "chunk_fields final = Inr (mdl, PStr t, fr)"
    by (simp add: finish_reason_of_def)
  have "\<forall>c\<in>set (front @ [final]). \<forall>mdl xs r. chunk_fields c \<noteq> Inr (mdl, PList xs, r)"
    using front final(1) text_token_not_list by auto
  then have "fst (generator kwargs init (front @ [final]) (length (front @ [final])) s)
               = front @ [final]"
    using generator_fst_unshared [of "length (front @ [final])" "front @ [final]" kwargs init s]
    by simp
  moreover
  have "snd (generator kwargs init (front @ [final]) (length (front @ [final])) s)
          = ?step (foldl ?step s front) final"
    by (simp add: generator_snd)
  ultimately
  have run: "generator kwargs init (front @ [final]) (length (front @ [final])) s =
               (front @ [final], ?step (foldl ?step s front) final)"
    by (simp add: prod_eq_iff)
  have "\<exists>ev. recorded (?step (foldl ?step s front) final) = recorded s @ [ev] \<and>
               map_of (returns ev) ''content'' = Some (PStr (tokens_text (front @ [final]))) \<and>
               map_of (returns ev) ''finish_reason'' = Some fr \<and>
               event_stream (?step (foldl ?step s front) final) = None"
  proof (cases front)
    case Nil
    with handle_final_opened [OF slot m ff final(3), of init] t show ?thesis
      by (simp add: tokens_text_Cons tokens_text_Nil)
  next
    case (Cons c cs)
    from front Cons obtain mdl' t' r' where
      f: "chunk_fields c = Inr (mdl', PStr t', r')" and q: "\<not> truthy r'"
      and tc: "token_text c = Some t'"
      using silent_chunkD [of c] by auto
    from handle_open [OF slot m f q, of init] obtain ev where
      ev: "event_stream (?step s c) = Some ev"
          "map_of (returns ev) ''content'' = Some (PStr t')"
          "recorded (?step s c) = recorded s" by blast
    have rest: "\<forall>c\<in>set cs. token_text c \<noteq> None \<and>
                  (\<forall>r. finish_reason_of c = Some r \<longrightarrow> \<not> truthy r)"
      using front Cons by simp
    from foldl_append_tokens [OF rest ev(1) ev(2), of kwargs init] obtain ev' where
      ev': "event_stream (foldl ?step (?step s c) cs) = Some ev'"
           "map_of (returns ev') ''content'' = Some (PStr (t' @ tokens_text cs))"
           "recorded (foldl ?step (?step s c) cs) = recorded (?step s c)" by blast
    from handle_final_appended [OF ev'(1) ev'(2) ff final(3), of kwargs init]
      ev'(3) ev(3) Cons tc t
    show ?thesis by (simp add: tokens_text_append tokens_text_Cons tokens_text_Nil)
  qed
  with run show ?thesis by auto
qed

text \<open>
  The scenario of the specification, with a chunk without content in between: the
  tokens \<^verbatim>\<open>He\<close>, nothing and \<^verbatim>\<open>llo\<close>, the last chunk finishing with \<^verbatim>\<open>stop\<close>.
\<close>

theorem stream_records_one_event_witness:
  "event_stream fresh = None \<and> map_of [(''messages'', PList [])] ''messages'' \<noteq> None \<and>
   (\<exists>ev. recorded (snd (generator [(''messages'', PList [])] 0
            ([mk_chunk ''m'' [(''content'', PStr ''He'')] PNone, mk_chunk ''m'' [] PNone]
               @ [mk_chunk ''m'' [(''content'', PStr ''llo'')] (PStr ''stop'')]) 3 fresh)) = [ev] \<and>
      map_of (returns ev) ''content'' = Some (PStr ''Hello'') \<and>
      map_of (returns ev) ''finish_reason'' = Some (PStr ''stop''))"
  using stream_records_one_event [of fresh "[(''messages'', PList [])]"
      "[mk_chunk ''m'' [(''content'', PStr ''He'')] PNone, mk_chunk ''m'' [] PNone]"
      "mk_chunk ''m'' [(''content'', PStr ''llo'')] (PStr ''stop'')" "PStr ''stop''" 0]
  by (simp add: fresh_def token_text_def finish_reason_of_def chunk_fields_mk_chunk
      tokens_text_def generator_snd del: generator.simps)

text \<open>
  C1 as stated fails in two ways. A stream whose only chunk carries the finish reason
  \<^verbatim>\<open>''\<close>, which is not null, records no Event: \<^verbatim>\<open>if finish_reason:\<close> tests truth. And a
  stream \<^verbatim>\<open>llo\<close>/\<^verbatim>\<open>stop\<close> that follows a stream abandoned after its first chunk \<^verbatim>\<open>He\<close> records
  the content \<^verbatim>\<open>Hello\<close>, not the concatenation \<^verbatim>\<open>llo\<close> of its own tokens: the slot was still
  open.
\<close>

theorem stream_records_one_event_counterexample:
  "finish_reason_of (mk_chunk ''m'' [(''content'', PStr ''Hi'')] (PStr '''')) = Some (PStr '''') \<and>
   PStr '''' \<noteq> PNone \<and>
   recorded (snd (generator [(''messages'', PList [])] 0
                    [mk_chunk ''m'' [(''content'', PStr ''Hi'')] (PStr '''')] 1 fresh)) = [] \<and>
   tokens_text [mk_chunk ''m'' [(''content'', PStr ''llo'')] (PStr ''stop'')] = ''llo'' \<and>
   map returns (recorded (snd (generator [(''messages'', PList [])] 2
                    [mk_chunk ''m'' [(''content'', PStr ''llo'')] (PStr ''stop'')] 1
                    (snd (generator [(''messages'', PList [])] 0
                            [mk_chunk ''m'' [(''content'', PStr ''He'')] PNone,
                             mk_chunk ''m'' [(''content'', PStr ''y'')] (PStr ''stop'')] 1 fresh)))))
     = [[(''finish_reason'', PStr ''stop''), (''content'', PStr ''Hello'')]]"
  by (simp add: generator_snd handle_stream_chunk_def try_chunk_def chunk_fields_mk_chunk
      accumulate_def finish_def Event_def get_ISO_time_def client_record_def fresh_def
      finish_reason_of_def token_text_def tokens_text_def Let_def)

text \<open>
  C5. When the body of \<^verbatim>\<open>handle_stream_chunk\<close> raises on a chunk, the handler returns
  normally with one more printed line and nothing else changed: the slot, its
  accumulated content and the sink are as before the chunk; and the generator yields
  the chunk itself. (The sink and the clock do not raise, so what raises is a read of
  the chunk, the read of \<^verbatim>\<open>kwargs['messages']\<close> or the \<^verbatim>\<open>+=\<close> on the content.)
\<close>

theorem chunk_parse_failure_is_contained:
  assumes "fst (try_chunk kwargs init chunk s) = Inl e"
  shows "handle_stream_chunk kwargs init chunk s =
           s\<lparr>stdout := stdout s @ [Unable_to_parse_chunk kwargs]\<rparr> \<and>
         generator kwargs init (chunk # rest) 1 s =
           ([chunk], s\<lparr>stdout := stdout s @ [Unable_to_parse_chunk kwargs]\<rparr>)"
proof -
  from try_chunk_raise [OF assms] assms
  have "try_chunk kwargs init chunk s = (Inl e, s)"
    by (cases "try_chunk kwargs init chunk s") simp
  then have h: "handle_stream_chunk kwargs init chunk s =
                  s\<lparr>stdout := stdout s @ [Unable_to_parse_chunk kwargs]\<rparr>"
    by (simp add: handle_stream_chunk_def)
  have "\<not> shares_token s (s\<lparr>stdout := stdout s @ [Unable_to_parse_chunk kwargs]\<rparr>)"
    by (simp add: shares_token_def split: option.splits)
  with h show ?thesis by (cases rest) (simp_all add: Let_def)
qed

text \<open>A chunk without \<^verbatim>\<open>choices\<close>, arriving while a stream is open.\<close>

theorem chunk_parse_failure_is_contained_witness:
  "fst (try_chunk [(''messages'', PList [])] 0 (PDict [(''model'', PStr ''m'')])
          (handle_stream_chunk [(''messages'', PList [])] 0
             (mk_chunk ''m'' [(''content'', PStr ''He'')] PNone) fresh)) = Inl KeyError \<and>
   event_stream (handle_stream_chunk [(''messages'', PList [])] 0 (PDict [(''model'', PStr ''m'')])
          (handle_stream_chunk [(''messages'', PList [])] 0
             (mk_chunk ''m'' [(''content'', PStr ''He'')] PNone) fresh))
     = event_stream (handle_stream_chunk [(''messages'', PList [])] 0
             (mk_chunk ''m'' [(''content'', PStr ''He'')] PNone) fresh) \<and>
   fst (generator [(''messages'', PList [])] 0 [PDict [(''model'', PStr ''m'')]] 1
          (handle_stream_chunk [(''messages'', PList [])] 0
             (mk_chunk ''m'' [(''content'', PStr ''He'')] PNone) fresh))
     = [PDict [(''model'', PStr ''m'')]]"
proof -
  let ?s = "handle_stream_chunk [(''messages'', PList [])] 0
             (mk_chunk ''m'' [(''content'', PStr ''He'')] PNone) fresh"
  let ?c = "PDict [(''model'', PStr ''m'')]"
  have f: "fst (try_chunk [(''messages'', PList [])] 0 ?c ?s) = Inl KeyError"
    by (simp add: try_chunk_def chunk_fields_def)
  from chunk_parse_failure_is_contained [OF f, of "[]"]
  have a: "handle_stream_chunk [(''messages'', PList [])] 0 ?c ?s =
             ?s\<lparr>stdout := stdout ?s @ [Unable_to_parse_chunk [(''messages'', PList [])]]\<rparr>"
    and b: "generator [(''messages'', PList [])] 0 [?c] 1 ?s =
             ([?c], ?s\<lparr>stdout := stdout ?s @ [Unable_to_parse_chunk [(''messages'', PList [])]]\<rparr>)"
    by blast+
  have "event_stream (handle_stream_chunk [(''messages'', PList [])] 0 ?c ?s) = event_stream ?s"
    by (simp only: a) simp
  moreover have "fst (generator [(''messages'', PList [])] 0 [?c] 1 ?s) = [?c]"
    by (simp only: b fst_conv)
  ultimately show ?thesis using f by blast
qed













section \<open>Atomic responses\<close>

text \<open>
  An attribute-style response that parses, returned through \<^verbatim>\<open>sync_method\<close> or
  \<^verbatim>\<open>async_method\<close> for a call with \<^verbatim>\<open>messages\<close>: the caller gets the response and
  the sink exactly one Event, which carries \<^verbatim>\<open>response.choices[0].message\<close> as content, the
  wrapper's reading of the clock as start timestamp and the constructor's reading as
  end timestamp; with a clock that does not run backwards the start is at most the end.
\<close>

lemma object_response_through_wrapper:
  assumes "original_method args kwargs = Inr (Value response)"
    and "map_of kwargs ''messages'' = Some msgs"
    and "getattr response ''object'' = Inr obj" and "getattr response ''choices'' = Inr choices"
    and "getitem_0 choices = Inr c0" and "getattr c0 ''message'' = Inr message"
    and "getattr response ''model'' = Inr mdl"
  shows "sync_method ''openai'' original_method args kwargs s =
           (Inr (Unmodified (Value response)),
            s\<lparr>ticks := Suc (Suc (ticks s)),
               recorded := recorded s @
                 [\<lparr>event_type = obj, params = kwargs, result = ''Success'',
                   returns = [(''content'', message)], action_type = ''llm'', model = mdl,
                   prompt = msgs, init_timestamp = clock s (ticks s),
                   end_timestamp = clock s (Suc (ticks s))\<rparr>]\<rparr>)"
    and "async_method ''openai'' original_method args kwargs s =
           sync_method ''openai'' original_method args kwargs s"
    and "(\<forall>i j. i \<le> j \<longrightarrow> clock s i \<le> clock s j) \<Longrightarrow>
           clock s (ticks s) \<le> clock s (Suc (ticks s))"
  using assms
  by (simp_all add: sync_method_def async_method_def handle_response_def
      handle_response_openai_def try_response_openai_def Event_def get_ISO_time_def
      client_record_def)

text \<open>
  C2, the code at the failing input. A mapping-style response that holds every field
  \<^verbatim>\<open>_handle_async_response_openai\<close> reads comes back from a call with \<^verbatim>\<open>messages\<close>. Every
  path a call can take (\<^verbatim>\<open>sync_method\<close>, \<^verbatim>\<open>async_method\<close> and the two \<^verbatim>\<open>patched_function\<close>s)
  hands it to \<^verbatim>\<open>_handle_response_openai\<close>, whose read \<^verbatim>\<open>response.object\<close> fails on a
  mapping: one line is printed and the sink receives nothing. The handler written for
  this dialect, which nothing calls, records the Event the claim describes.
\<close>

theorem mapping_response_records_no_event:
  "recorded (snd (sync_method ''openai'' (\<lambda>a k. Inr (Value (PDict [(''object'', PStr ''chat.completion''),
        (''choices'', PList [PDict [(''message'', PDict [(''content'', PStr ''Hi'')])]]),
        (''model'', PStr ''gpt-4'')]))) []
      [(''messages'', PList [])] fresh)) = [] \<and>
   recorded (snd (async_method ''openai'' (\<lambda>a k. Inr (Value (PDict [(''object'', PStr ''chat.completion''),
        (''choices'', PList [PDict [(''message'', PDict [(''content'', PStr ''Hi'')])]]),
        (''model'', PStr ''gpt-4'')]))) []
      [(''messages'', PList [])] fresh)) = [] \<and>
   recorded (snd (patched_function (\<lambda>a k. Inr (Value (PDict [(''object'', PStr ''chat.completion''),
        (''choices'', PList [PDict [(''message'', PDict [(''content'', PStr ''Hi'')])]]),
        (''model'', PStr ''gpt-4'')]))) []
      [(''messages'', PList [])] fresh)) = [] \<and>
   recorded (snd (patched_async_function (\<lambda>a k. Inr (Value (PDict [(''object'', PStr ''chat.completion''),
        (''choices'', PList [PDict [(''message'', PDict [(''content'', PStr ''Hi'')])]]),
        (''model'', PStr ''gpt-4'')]))) []
      [(''messages'', PList [])] fresh)) = [] \<and>
   stdout (snd (sync_method ''openai'' (\<lambda>a k. Inr (Value (PDict [(''object'', PStr ''chat.completion''),
        (''choices'', PList [PDict [(''message'', PDict [(''content'', PStr ''Hi'')])]]),
        (''model'', PStr ''gpt-4'')]))) []
      [(''messages'', PList [])] fresh))
     = [Unable_to_parse_response [(''messages'', PList [])]] \<and>
   map returns (recorded (snd (handle_async_response_openai (Value (PDict [(''object'', PStr ''chat.completion''),
        (''choices'', PList [PDict [(''message'', PDict [(''content'', PStr ''Hi'')])]]),
        (''model'', PStr ''gpt-4'')]))
      [(''messages'', PList [])] 0 fresh)))
     = [[(''content'', PStr ''Hi'')]]"
  by (simp add: sync_method_def async_method_def patched_function_def
      patched_async_function_def handle_response_def handle_response_openai_def
      try_response_openai_def handle_async_response_openai_def try_async_response_openai_def
      Event_def get_ISO_time_def client_record_def fresh_def Let_def)

section \<open>Transparency of the wrappers\<close>

lemma handle_response_atomic:
  "\<not> is_stream res \<Longrightarrow> fst (handle_response api res kwargs init s) = Unmodified res"
  by (cases res)
     (auto simp: handle_response_def handle_response_openai_def is_stream_def
        split: prod.splits sum.splits)

lemma handle_response_stream:
  assumes "res = Generator chunks \<or> res = Async_generator chunks"
    and "\<forall>c\<in>set (take n chunks). \<forall>mdl xs fr. chunk_fields c \<noteq> Inr (mdl, PList xs, fr)"
  shows "map_option fst (pull (fst (handle_response api res kwargs init s)) n s')
           = Some (take n chunks)"
proof -
  obtain ys t where g: "generator kwargs init chunks n s' = (ys, t)"
    by (cases "generator kwargs init chunks n s'") auto
  with generator_fst_unshared [OF assms(2), of kwargs init s'] have "ys = take n chunks"
    by simp
  with g assms(1) show ?thesis
    by (auto simp: handle_response_def handle_response_openai_def)
qed

text \<open>
  What holds of the claim: a call through \<^verbatim>\<open>sync_method\<close> or \<^verbatim>\<open>async_method\<close> returns the
  response itself when it is not a stream, whether or not it parsed; and from the
  wrapper of a stream, \<open>n\<close> pulls give the first \<open>n\<close> chunks as the provider's sequence
  gives them, as long as none of them has a list for a token.
\<close>

lemma wrapped_call_transparent_without_list_tokens:
  assumes "original_method args kwargs = Inr res"
  shows "\<exists>r. fst (sync_method api original_method args kwargs s) = Inr r \<and>
             fst (async_method api original_method args kwargs s) = Inr r \<and>
             (\<not> is_stream res \<longrightarrow> r = Unmodified res) \<and>
             (\<forall>chunks n s'.
                (res = Generator chunks \<or> res = Async_generator chunks) \<and>
                (\<forall>c\<in>set (take n chunks). \<forall>mdl xs fr.
                   chunk_fields c \<noteq> Inr (mdl, PList xs, fr)) \<longrightarrow>
                map_option fst (pull r n s') = Some (take n chunks))"
proof -
  obtain init s1 where t: "get_ISO_time s = (init, s1)" by (cases "get_ISO_time s") auto
  obtain r s2 where h: "handle_response api res kwargs init s1 = (r, s2)"
    by (cases "handle_response api res kwargs init s1") auto
  have "\<not> is_stream res \<longrightarrow> r = Unmodified res"
    using handle_response_atomic [of res api kwargs init s1] h by simp
  moreover
  have "\<forall>chunks n s'.
          (res = Generator chunks \<or> res = Async_generator chunks) \<and>
          (\<forall>c\<in>set (take n chunks). \<forall>mdl xs fr. chunk_fields c \<noteq> Inr (mdl, PList xs, fr)) \<longrightarrow>
          map_option fst (pull r n s') = Some (take n chunks)"
    using handle_response_stream [of res _ _ api kwargs init s1] h by simp
  moreover
  have "fst (sync_method api original_method args kwargs s) = Inr r"
    and "fst (async_method api original_method args kwargs s) = Inr r"
    using assms t h by (simp_all add: sync_method_def async_method_def)
  ultimately show ?thesis by blast
qed

text \<open>
  C3, the code at the failing input. The provider streams two chunks whose tokens are
  the lists \<^verbatim>\<open>['a']\<close> and \<^verbatim>\<open>['x']\<close>. \<^verbatim>\<open>sync_method\<close> returns the wrapper; the caller pulls both
  chunks. The first chunk opened the stream, so its token list is the Event's content,
  and handling the second chunk extended that list in place: the caller's first chunk
  now reads \<^verbatim>\<open>['a', 'x']\<close>. From the provider's own sequence the first chunk reads \<^verbatim>\<open>['a']\<close>.
\<close>

theorem list_token_changes_yielded_chunk:
  "fst (sync_method ''openai''
          (\<lambda>a k. Inr (Generator [mk_chunk ''m'' [(''content'', PList [PStr ''a''])] PNone,
                                 mk_chunk ''m'' [(''content'', PList [PStr ''x''])] PNone]))
          [] [(''messages'', PList [])] fresh)
     = Inr (Generator_wrapper [(''messages'', PList [])] 0
              [mk_chunk ''m'' [(''content'', PList [PStr ''a''])] PNone,
               mk_chunk ''m'' [(''content'', PList [PStr ''x''])] PNone]) \<and>
   map_option fst
     (pull (Generator_wrapper [(''messages'', PList [])] 0
              [mk_chunk ''m'' [(''content'', PList [PStr ''a''])] PNone,
               mk_chunk ''m'' [(''content'', PList [PStr ''x''])] PNone]) 2 fresh)
     = Some [mk_chunk ''m'' [(''content'', PList [PStr ''a'', PStr ''x''])] PNone,
             mk_chunk ''m'' [(''content'', PList [PStr ''x''])] PNone] \<and>
   map_option fst
     (pull (Unmodified (Generator [mk_chunk ''m'' [(''content'', PList [PStr ''a''])] PNone,
                                   mk_chunk ''m'' [(''content'', PList [PStr ''x''])] PNone]))
        2 fresh)
     = Some [mk_chunk ''m'' [(''content'', PList [PStr ''a''])] PNone,
             mk_chunk ''m'' [(''content'', PList [PStr ''x''])] PNone]"
  by (simp add: sync_method_def handle_response_def handle_response_openai_def
      get_ISO_time_def fresh_def numeral_2_eq_2 Let_def handle_stream_chunk_def try_chunk_def
      chunk_fields_mk_chunk accumulate_def finish_def Event_def shares_token_def
      content_of_open_def)
     (simp add: set_token_def mk_chunk_def)

text \<open>
  C9. A call through either \<^verbatim>\<open>patched_function\<close> whose original returns \<open>res\<close> returns
  \<open>res\<close>, not what the normalizer returned. When \<open>res\<close> is a stream, the call leaves the
  slot and the sink as they were, and the caller iterates the provider's own sequence,
  which feeds no chunk to the accumulator: the tracker is untouched by any number of
  pulls.
\<close>

theorem patched_function_returns_raw_result:
  assumes "original_create args kwargs = Inr res"
  shows "fst (patched_function original_create args kwargs s) = Inr res \<and>
         fst (patched_async_function original_create args kwargs s) = Inr res \<and>
         (is_stream res \<longrightarrow>
            event_stream (snd (patched_function original_create args kwargs s)) = event_stream s \<and>
            recorded (snd (patched_function original_create args kwargs s)) = recorded s \<and>
            event_stream (snd (patched_async_function original_create args kwargs s))
              = event_stream s \<and>
            recorded (snd (patched_async_function original_create args kwargs s)) = recorded s \<and>
            (\<forall>n s'. map_option snd (pull (Unmodified res) n s') = Some s'))"
  using assms
  by (cases res)
     (auto simp: patched_function_def patched_async_function_def handle_response_openai_def
        get_ISO_time_def is_stream_def Let_def split: prod.splits sum.splits)

theorem patched_function_returns_raw_result_witness:
  "fst (patched_function
          (\<lambda>a k. Inr (Generator [mk_chunk ''m'' [(''content'', PStr ''Hi'')] (PStr ''stop'')]))
          [] [(''messages'', PList [])] fresh)
     = Inr (Generator [mk_chunk ''m'' [(''content'', PStr ''Hi'')] (PStr ''stop'')]) \<and>
   is_stream (Generator [mk_chunk ''m'' [(''content'', PStr ''Hi'')] (PStr ''stop'')]) \<and>
   recorded (snd (patched_function
          (\<lambda>a k. Inr (Generator [mk_chunk ''m'' [(''content'', PStr ''Hi'')] (PStr ''stop'')]))
          [] [(''messages'', PList [])] fresh)) = [] \<and>
   map_option snd
     (pull (Unmodified (Generator [mk_chunk ''m'' [(''content'', PStr ''Hi'')] (PStr ''stop'')]))
        1 fresh) = Some fresh"
  using patched_function_returns_raw_result [of
      "\<lambda>a k. Inr (Generator [mk_chunk ''m'' [(''content'', PStr ''Hi'')] (PStr ''stop'')])"
      "[]" "[(''messages'', PList [])]"
      "Generator [mk_chunk ''m'' [(''content'', PStr ''Hi'')] (PStr ''stop'')]" fresh]
  by (simp add: is_stream_def fresh_def)

section \<open>Installation\<close>

lemma reduce_getattr_error: "reduce_getattr ps v = Inl e \<Longrightarrow> e = AttributeError"
proof (induction ps arbitrary: v)
  case Nil
  then show ?case by simp
next
  case (Cons p ps)
  show ?case
  proof (cases "getattr v p")
    case (Inl e')
    then have "e' = AttributeError" by (cases v) (auto split: option.splits)
    with Cons.prems Inl show ?thesis by simp
  next
    case (Inr w)
    with Cons.prems have "reduce_getattr ps w = Inl e" by simp
    then show ?thesis by (rule Cons.IH)
  qed
qed

text \<open>
  C7. When the dotted path does not resolve by attribute lookup from the module,
  \<^verbatim>\<open>_override_method\<close> raises an AttributeError (the specification's
  AttributeResolutionError) and leaves the module as it was: no wrapper is installed.
\<close>

theorem unresolved_path_installs_nothing:
  assumes "reduce_getattr (split_dot method_path) module = Inl e"
  shows "override_method api method_path module = (Inl AttributeError, module)"
  using assms reduce_getattr_error [OF assms] by (simp add: override_method_def)

text \<open>
  The scenario of the specification: a module that has \<^verbatim>\<open>chat\<close> but no
  \<^verbatim>\<open>chat.completions\<close>.
\<close>

theorem unresolved_path_installs_nothing_witness:
  "reduce_getattr (split_dot ''chat.completions.create'')
     (PObj [(''__version__'', PStr ''1.2.0''), (''chat'', PObj [])]) = Inl AttributeError \<and>
   override_method ''openai'' ''chat.completions.create''
     (PObj [(''__version__'', PStr ''1.2.0''), (''chat'', PObj [])])
     = (Inl AttributeError, PObj [(''__version__'', PStr ''1.2.0''), (''chat'', PObj [])])"
proof -
  have h: "reduce_getattr (split_dot ''chat.completions.create'')
     (PObj [(''__version__'', PStr ''1.2.0''), (''chat'', PObj [])]) = Inl AttributeError"
    by simp
  from unresolved_path_installs_nothing [OF h, of "''openai''"] h show ?thesis by simp
qed

section \<open>Version resolution\<close>

lemma version_loop_find:
  "version_loop parse api vs mv keys module =
     (case find (\<lambda>r. parse r \<le> mv) keys of
        None \<Rightarrow> (Inr (), module)
      | Some r \<Rightarrow> (case map_of vs r of None \<Rightarrow> (Inl KeyError, module)
                   | Some paths \<Rightarrow> override_methods api paths module))"
  by (induction keys) simp_all

lemma find_registered:
  assumes "find P (sorted_reverse parse (map fst vs)) = Some r"
  shows "map_of vs r \<noteq> None"
proof -
  from assms have "r \<in> set (sorted_reverse parse (map fst vs))"
    by (auto simp: find_Some_iff)
  then have "r \<in> fst ` set vs" by (simp add: sorted_reverse_def)
  then show ?thesis by (simp add: map_of_eq_None_iff)
qed

lemma sorted_reverse_descending:
  "sorted (rev (map parse (sorted_reverse parse keys))) \<and>
   mset (sorted_reverse parse keys) = mset keys"
  by (simp add: sorted_reverse_def rev_map)

lemma parse_release_order:
  "parse_release ''0.0.0'' \<le> parse_release ''0.5.0'' \<and>
   parse_release ''0.5.0'' < parse_release ''1.0.0'' \<and>
   parse_release ''1.0.0'' \<le> parse_release ''1.2.0''"
  by (simp add: parse_release_def decimal_def)

text \<open>
  C4. For a loaded provider with a registry entry, \<^verbatim>\<open>override_api\<close> installs exactly the
  method paths that the resolver of the specification selects. With a version string
  \<open>v\<close> on the module: the paths of the first registered version, in descending order of
  \<open>parse\<close>, that is at most \<open>parse v\<close> (and nothing when there is none); the order iterated
  is a rearrangement of the registered versions that descends. With no version string:
  the paths of \<^verbatim>\<open>0.0.0\<close>. And with the versions \<^verbatim>\<open>0.0.0\<close> \<open>\<mapsto>\<close> \<open>A\<close> and \<^verbatim>\<open>1.0.0\<close> \<open>\<mapsto>\<close> \<open>B\<close>, for any
  \<open>parse\<close> that orders the four version strings as versions: \<^verbatim>\<open>1.2.0\<close> resolves to \<open>B\<close>,
  \<^verbatim>\<open>0.5.0\<close> to \<open>A\<close>, no version to \<open>A\<close>.
\<close>

theorem override_api_resolves_version:
  assumes "map_of sys_modules api = Some module" and "map_of apis api = Some vs"
  shows "(getattr module ''__version__'' = Inr (PStr v) \<longrightarrow>
            override_api parse apis api sys_modules =
              (case resolve parse vs (Some v) of
                 None \<Rightarrow> (Inr (), sys_modules)
               | Some paths \<Rightarrow>
                   (fst (override_methods api paths module),
                    AList.update api (snd (override_methods api paths module)) sys_modules))) \<and>
         (\<not> hasattr module ''__version__'' \<longrightarrow>
            override_api parse apis api sys_modules =
              (case resolve parse vs None of
                 None \<Rightarrow> (Inl KeyError, sys_modules)
               | Some paths \<Rightarrow>
                   (fst (override_methods api paths module),
                    AList.update api (snd (override_methods api paths module)) sys_modules))) \<and>
         sorted (rev (map parse (sorted_reverse parse (map fst vs)))) \<and>
         mset (sorted_reverse parse (map fst vs)) = mset (map fst vs) \<and>
         (parse ''0.0.0'' \<le> parse ''0.5.0'' \<and> parse ''0.5.0'' < parse ''1.0.0'' \<and>
          parse ''1.0.0'' \<le> parse ''1.2.0'' \<longrightarrow>
            resolve parse [(''0.0.0'', A), (''1.0.0'', B)] (Some ''1.2.0'') = Some B \<and>
            resolve parse [(''0.0.0'', A), (''1.0.0'', B)] (Some ''0.5.0'') = Some A \<and>
            resolve parse [(''0.0.0'', A), (''1.0.0'', B)] None = Some A)"
proof -
  have triv: "AList.update api module sys_modules = sys_modules"
    using assms(1) by (simp add: update_triv)
  have a: "getattr module ''__version__'' = Inr (PStr v) \<longrightarrow>
            override_api parse apis api sys_modules =
              (case resolve parse vs (Some v) of
                 None \<Rightarrow> (Inr (), sys_modules)
               | Some paths \<Rightarrow>
                   (fst (override_methods api paths module),
                    AList.update api (snd (override_methods api paths module)) sys_modules))"
  proof
    assume g: "getattr module ''__version__'' = Inr (PStr v)"
    show "override_api parse apis api sys_modules =
              (case resolve parse vs (Some v) of
                 None \<Rightarrow> (Inr (), sys_modules)
               | Some paths \<Rightarrow>
                   (fst (override_methods api paths module),
                    AList.update api (snd (override_methods api paths module)) sys_modules))"
    proof (cases "find (\<lambda>r. parse r \<le> parse v) (sorted_reverse parse (map fst vs))")
      case None
      with assms g triv show ?thesis
        by (simp add: override_api_def hasattr_def version_loop_find resolve_def)
    next
      case (Some r)
      then obtain paths where p: "map_of vs r = Some paths" using find_registered by fastforce
      with assms g Some show ?thesis
        by (simp add: override_api_def hasattr_def version_loop_find resolve_def
            split: prod.splits)
    qed
  qed
  have b: "\<not> hasattr module ''__version__'' \<longrightarrow>
            override_api parse apis api sys_modules =
              (case resolve parse vs None of
                 None \<Rightarrow> (Inl KeyError, sys_modules)
               | Some paths \<Rightarrow>
                   (fst (override_methods api paths module),
                    AList.update api (snd (override_methods api paths module)) sys_modules))"
    using assms triv
    by (simp add: override_api_def resolve_def split: option.splits prod.splits)
  have c: "parse ''0.0.0'' \<le> parse ''0.5.0'' \<and> parse ''0.5.0'' < parse ''1.0.0'' \<and>
          parse ''1.0.0'' \<le> parse ''1.2.0'' \<longrightarrow>
            resolve parse [(''0.0.0'', A), (''1.0.0'', B)] (Some ''1.2.0'') = Some B \<and>
            resolve parse [(''0.0.0'', A), (''1.0.0'', B)] (Some ''0.5.0'') = Some A \<and>
            resolve parse [(''0.0.0'', A), (''1.0.0'', B)] None = Some A"
  proof
    assume h: "parse ''0.0.0'' \<le> parse ''0.5.0'' \<and> parse ''0.5.0'' < parse ''1.0.0'' \<and>
          parse ''1.0.0'' \<le> parse ''1.2.0''"
    then have lt: "parse ''0.0.0'' < parse ''1.0.0''" by auto
    then have srt: "sorted_reverse parse [''0.0.0'', ''1.0.0''] = [''1.0.0'', ''0.0.0'']"
      by (auto simp: sorted_reverse_def)
    from h have n: "\<not> parse ''1.0.0'' \<le> parse ''0.5.0''" by auto
    from h srt n
    show "resolve parse [(''0.0.0'', A), (''1.0.0'', B)] (Some ''1.2.0'') = Some B \<and>
            resolve parse [(''0.0.0'', A), (''1.0.0'', B)] (Some ''0.5.0'') = Some A \<and>
            resolve parse [(''0.0.0'', A), (''1.0.0'', B)] None = Some A"
      by (simp add: resolve_def)
  qed
  from a b c sorted_reverse_descending [of parse "map fst vs"] show ?thesis by blast
qed

text \<open>
  The registry of the class, with release versions: a module of version \<^verbatim>\<open>1.2.0\<close> gets the
  wrapper at \<^verbatim>\<open>chat.completions.create\<close>, a module without a version the wrapper at
  \<^verbatim>\<open>ChatCompletion.create\<close> of the legacy set, whose second path
  \<^verbatim>\<open>ChatCompletion.acreate\<close> is missing here and raises.
\<close>

theorem override_api_resolves_version_witness:
  "override_api parse_release SUPPORTED_APIS ''openai''
     [(''openai'', PObj [(''__version__'', PStr ''1.2.0''),
                         (''chat'', PObj [(''completions'', PObj [(''create'', PFun ''create'')])])])]
     = (Inr (),
        [(''openai'', PObj [(''__version__'', PStr ''1.2.0''),
                            (''chat'', PObj [(''completions'',
                               PObj [(''create'', PSyncMethod ''openai'' (PFun ''create''))])])])]) \<and>
   override_api parse_release SUPPORTED_APIS ''openai''
     [(''openai'', PObj [(''ChatCompletion'', PObj [(''create'', PFun ''create'')])])]
     = (Inl AttributeError,
        [(''openai'', PObj [(''ChatCompletion'',
                              PObj [(''create'', PSyncMethod ''openai'' (PFun ''create''))])])]) \<and>
   resolve parse_release [(''0.0.0'', [''a'']), (''1.0.0'', [''b''])] (Some ''1.2.0'') = Some [''b''] \<and>
   resolve parse_release [(''0.0.0'', [''a'']), (''1.0.0'', [''b''])] (Some ''0.5.0'') = Some [''a''] \<and>
   resolve parse_release [(''0.0.0'', [''a'']), (''1.0.0'', [''b''])] None = Some [''a'']"
proof -
  let ?new = "PObj [(''__version__'', PStr ''1.2.0''),
                    (''chat'', PObj [(''completions'', PObj [(''create'', PFun ''create'')])])]"
  let ?old = "PObj [(''ChatCompletion'', PObj [(''create'', PFun ''create'')])]"
  let ?vs = "[(''1.0.0'', [''chat.completions.create'']),
              (''0.0.0'', [''ChatCompletion.create'', ''ChatCompletion.acreate''])]"
  have reg: "map_of SUPPORTED_APIS ''openai'' = Some ?vs" by (simp add: SUPPORTED_APIS_def)
  have srt: "sorted_reverse parse_release [''1.0.0'', ''0.0.0''] = [''1.0.0'', ''0.0.0'']"
    by (simp add: sorted_reverse_def parse_release_def decimal_def)
  have r1: "resolve parse_release ?vs (Some ''1.2.0'') = Some [''chat.completions.create'']"
    using srt by (simp add: resolve_def) (simp add: parse_release_def decimal_def)
  have r2: "resolve parse_release ?vs None = Some [''ChatCompletion.create'', ''ChatCompletion.acreate'']"
    by (simp add: resolve_def)
  have m1: "map_of [(''openai'', ?new)] ''openai'' = Some ?new" by simp
  have m2: "map_of [(''openai'', ?old)] ''openai'' = Some ?old" by simp
  have a: "override_api parse_release SUPPORTED_APIS ''openai'' [(''openai'', ?new)]
     = (Inr (),
        [(''openai'', PObj [(''__version__'', PStr ''1.2.0''),
                            (''chat'', PObj [(''completions'',
                               PObj [(''create'', PSyncMethod ''openai'' (PFun ''create''))])])])])"
    using override_api_resolves_version [OF m1 reg, of "''1.2.0''" parse_release "[]" "[]"] r1
    by (simp add: override_method_def wrap_method_def)
  have b: "override_api parse_release SUPPORTED_APIS ''openai'' [(''openai'', ?old)]
     = (Inl AttributeError,
        [(''openai'', PObj [(''ChatCompletion'',
                              PObj [(''create'', PSyncMethod ''openai'' (PFun ''create''))])])])"
    using override_api_resolves_version [OF m2 reg, of "''1.2.0''" parse_release "[]" "[]"] r2
    by (simp add: override_method_def wrap_method_def hasattr_def)
  have c: "resolve parse_release [(''0.0.0'', [''a'']), (''1.0.0'', [''b''])] (Some ''1.2.0'') = Some [''b''] \<and>
   resolve parse_release [(''0.0.0'', [''a'']), (''1.0.0'', [''b''])] (Some ''0.5.0'') = Some [''a''] \<and>
   resolve parse_release [(''0.0.0'', [''a'']), (''1.0.0'', [''b''])] None = Some [''a'']"
    using override_api_resolves_version [OF m1 reg, of "''1.2.0''" parse_release "[''a'']" "[''b'']"]
      parse_release_order
    by blast
  from a b c show ?thesis by blast
qed

text \<open>
  C6, as amended. For a provider name without a registry entry whose module is loaded
  (is in \<^verbatim>\<open>sys.modules\<close>), \<^verbatim>\<open>override_api\<close> raises at once, a ValueError (the
  specification's UnsupportedProviderError), and installs nothing.
\<close>

theorem unsupported_loaded_provider_raises:
  assumes "map_of apis api = None" and "map_of sys_modules api \<noteq> None"
  shows "override_api parse apis api sys_modules = (Inl ValueError, sys_modules)"
  using assms by (auto simp: override_api_def)

theorem unsupported_loaded_provider_raises_witness:
  "map_of SUPPORTED_APIS ''anthropic'' = None \<and>
   map_of [(''anthropic'', PObj [])] ''anthropic'' \<noteq> None \<and>
   override_api parse_release SUPPORTED_APIS ''anthropic'' [(''anthropic'', PObj [])]
     = (Inl ValueError, [(''anthropic'', PObj [])])"
proof -
  have a: "map_of SUPPORTED_APIS ''anthropic'' = None" by (simp add: SUPPORTED_APIS_def)
  have b: "map_of [(''anthropic'', PObj [])] ''anthropic'' \<noteq> None" by simp
  from unsupported_loaded_provider_raises [OF a b, of parse_release] a b show ?thesis by simp
qed

text \<open>
  C6 as stated fails for a provider that has no registry entry and is not loaded:
  \<^verbatim>\<open>override_api\<close> returns without raising.
\<close>

theorem unsupported_provider_counterexample:
  "map_of SUPPORTED_APIS ''anthropic'' = None \<and>
   override_api parse_release SUPPORTED_APIS ''anthropic'' [(''openai'', PObj [])]
     = (Inr (), [(''openai'', PObj [])])"
  by (simp add: SUPPORTED_APIS_def override_api_def)

text \<open>
  C10. For a provider name without a registry entry, \<^verbatim>\<open>override_api\<close> raises exactly when
  a module of that name is loaded. For a name that is not loaded, with or without a
  registry entry, it returns normally and \<^verbatim>\<open>sys.modules\<close> is as before.
\<close>

theorem override_api_raises_iff_loaded:
  "(map_of apis api = None \<longrightarrow>
      (isl (fst (override_api parse apis api sys_modules)) \<longleftrightarrow> map_of sys_modules api \<noteq> None)) \<and>
   (map_of sys_modules api = None \<longrightarrow>
      override_api parse apis api sys_modules = (Inr (), sys_modules))"
  by (auto simp: override_api_def split: option.splits)

text \<open>An unsupported name that is loaded, and the supported name when it is not.\<close>

theorem override_api_raises_iff_loaded_witness:
  "map_of SUPPORTED_APIS ''cohere'' = None \<and>
   isl (fst (override_api parse_release SUPPORTED_APIS ''cohere'' [(''cohere'', PObj [])])) \<and>
   map_of [(''cohere'', PObj [])] ''openai'' = None \<and>
   override_api parse_release SUPPORTED_APIS ''openai'' [(''cohere'', PObj [])]
     = (Inr (), [(''cohere'', PObj [])])"
proof -
  have a: "map_of SUPPORTED_APIS ''cohere'' = None" by (simp add: SUPPORTED_APIS_def)
  have b: "map_of [(''cohere'', PObj [])] ''openai'' = None" by simp
  from override_api_raises_iff_loaded [of SUPPORTED_APIS "''cohere''" parse_release
      "[(''cohere'', PObj [])]"] a
  have c: "isl (fst (override_api parse_release SUPPORTED_APIS ''cohere'' [(''cohere'', PObj [])]))"
    by simp
  from override_api_raises_iff_loaded [of SUPPORTED_APIS "''openai''" parse_release
      "[(''cohere'', PObj [])]"] b
  have d: "override_api parse_release SUPPORTED_APIS ''openai'' [(''cohere'', PObj [])]
             = (Inr (), [(''cohere'', PObj [])])"
    by simp
  from a b c d show ?thesis by blast
qed

end
